theory Spec2Isabelle
  imports Main "HOL-Library.Multiset" "HOL-Library.Char_ord" "HOL-Library.List_Lexorder"
begin

section \<open>Exceptions\<close>

text \<open>
  The module raises Python's built-in exceptions. An exception is a value: the class and,
  where the source gives one, the message. The message type is a parameter, so that a
  message whose text is a function of the arguments is a \<open>string\<close> and one that prints
  a Python set (whose element order Python does not fix) keeps the set as a value.
  \<open>IndexError\<close> is what numpy's integer-array indexing raises out of range,
  \<open>AttributeError\<close> what reading an absent attribute raises, and \<open>OverflowError\<close> what
  numpy raises for a Python int that does not fit its 64-bit integer.
\<close>

datatype 'm error =
  TypeError 'm | ValueError 'm | IndexError | AttributeError string | OverflowError

section \<open>Printing integers\<close>

text \<open>\<open>str\<close> of a Python int, as the f-strings of the module apply it: decimal digits,
  a leading minus sign for a negative number.\<close>

definition digit_char :: "nat \<Rightarrow> char" where
  "digit_char d = ''0123456789'' ! d"

function show_nat :: "nat \<Rightarrow> string" where
  "show_nat n = (if n < 10 then [digit_char n] else show_nat (n div 10) @ [digit_char (n mod 10)])"
  by pat_completeness auto
termination
  by (relation "measure id") auto

declare show_nat.simps [simp del]

definition show_int :: "int \<Rightarrow> string" where
  "show_int i = (if i < 0 then CHR ''-'' # show_nat (nat (- i)) else show_nat (nat i))"

section \<open>64-bit integers\<close>

text \<open>
  numpy's default integer is the signed 64-bit one. Arithmetic on it wraps around.
\<close>

definition in_int64 :: "int \<Rightarrow> bool" where
  "in_int64 v = (- (2 ^ 63) \<le> v \<and> v < 2 ^ 63)"

definition wrap_int64 :: "int \<Rightarrow> int" where
  "wrap_int64 v = (v + 2 ^ 63) mod 2 ^ 64 - 2 ^ 63"

section \<open>The contract validator: \<open>check_array_like\<close>\<close>

text \<open>
  A numpy dtype, as far as the validator looks at it: what \<open>str\<close> prints for it, and its
  \<open>kind\<close> code. Two dtypes are equal when both agree.
\<close>

record np_dtype =
  dtype_name :: string
  dtype_kind :: string

text \<open>
  The value under test is any Python object; the validator only probes the attributes
  \<open>ndim\<close>, \<open>dtype\<close> and \<open>shape\<close>. \<open>None\<close> is an absent attribute.
\<close>

record array_like =
  ndim_attr :: "int option"
  dtype_attr :: "np_dtype option"
  shape_attr :: "int list option"

text \<open>A constraint that is not \<open>None\<close> is one value or a Python set of values.\<close>

datatype 'a constraint = Single 'a | AnyOf "'a set"

text \<open>
  A message of the validator is an f-string: literal text and formatted values. Python
  prints a set in an order it does not fix, so a formatted value is kept as the value.
\<close>

datatype frag =
    Lit string
  | IntV int
  | StrV string
  | DTypeV np_dtype
  | IntSetV "int set"
  | StrSetV "string set"
  | DTypeSetV "np_dtype set"

type_synonym fstring = "frag list"

text \<open>
  \<open>np.dtype(t)\<close> turns a dtype specifier into a dtype. Specifiers are taken here as dtype
  objects already, and on those \<open>np.dtype\<close> is the identity.
\<close>

definition np_dtype_of :: "np_dtype \<Rightarrow> np_dtype" where
  "np_dtype_of t = t"

definition hasattr :: "array_like \<Rightarrow> string \<Rightarrow> bool" where
  "hasattr a k =
     (if k = ''ndim'' then ndim_attr a \<noteq> None
      else if k = ''dtype'' then dtype_attr a \<noteq> None
      else if k = ''shape'' then shape_attr a \<noteq> None
      else False)"

text \<open>Reading an attribute raises \<open>AttributeError\<close> when it is absent.\<close>

definition get_dtype :: "array_like \<Rightarrow> fstring error + np_dtype" where
  "get_dtype a = (case dtype_attr a of None \<Rightarrow> Inl (AttributeError ''dtype'') | Some d \<Rightarrow> Inr d)"

definition get_ndim :: "array_like \<Rightarrow> fstring error + int" where
  "get_ndim a = (case ndim_attr a of None \<Rightarrow> Inl (AttributeError ''ndim'') | Some n \<Rightarrow> Inr n)"

definition array_attrs :: "string list" where
  "array_attrs = [''ndim'', ''dtype'', ''shape'']"

text \<open>The message \<open>Not an array. Missing attribute '{k}'\<close>; \<open>CHR 0x27\<close> is the apostrophe.\<close>

definition missing_attribute :: "string \<Rightarrow> fstring" where
  "missing_attribute k =
     [Lit (''Not an array. Missing attribute '' @ [CHR 0x27]), StrV k, Lit [CHR 0x27]]"

text \<open>The loop over \<open>array_attrs\<close>.\<close>

fun check_attrs :: "array_like \<Rightarrow> string list \<Rightarrow> fstring error + unit" where
  "check_attrs a [] = Inr ()"
| "check_attrs a (k # ks) =
     (if \<not> hasattr a k then Inl (TypeError (missing_attribute k)) else check_attrs a ks)"

text \<open>The block \<open>if dtype is not None\<close>.\<close>

definition check_dtype :: "array_like \<Rightarrow> np_dtype constraint option \<Rightarrow> fstring error + unit" where
  "check_dtype a dtype =
     (case dtype of
        None \<Rightarrow> Inr ()
      | Some (AnyOf ts) \<Rightarrow>
          (let dtype = np_dtype_of ` ts
           in case get_dtype a of
                Inl e \<Rightarrow> Inl e
              | Inr a_dtype \<Rightarrow>
                  if a_dtype \<notin> dtype
                  then Inl (TypeError [Lit ''Array dtype ('', DTypeV a_dtype,
                                       Lit '') does not match one of '', DTypeSetV dtype])
                  else Inr ())
      | Some (Single t) \<Rightarrow>
          (case get_dtype a of
             Inl e \<Rightarrow> Inl e
           | Inr a_dtype \<Rightarrow>
               if a_dtype \<noteq> np_dtype_of t
               then Inl (TypeError [Lit ''Array dtype ('', DTypeV a_dtype,
                                    Lit '') does not match '', DTypeV (np_dtype_of t)])
               else Inr ()))"

text \<open>The block \<open>if kind is not None\<close>.\<close>

definition check_kind :: "array_like \<Rightarrow> string constraint option \<Rightarrow> fstring error + unit" where
  "check_kind a kind =
     (case kind of
        None \<Rightarrow> Inr ()
      | Some (AnyOf ks) \<Rightarrow>
          (case get_dtype a of
             Inl e \<Rightarrow> Inl e
           | Inr a_dtype \<Rightarrow>
               if dtype_kind a_dtype \<notin> ks
               then Inl (TypeError [Lit ''Array dtype kind ('', StrV (dtype_kind a_dtype),
                                    Lit '') does not match one of '', StrSetV ks])
               else Inr ())
      | Some (Single k) \<Rightarrow>
          (case get_dtype a of
             Inl e \<Rightarrow> Inl e
           | Inr a_dtype \<Rightarrow>
               if dtype_kind a_dtype \<noteq> k
               then Inl (TypeError [Lit ''Array dtype kind ('', StrV (dtype_kind a_dtype),
                                    Lit '') does not match '', StrV k])
               else Inr ()))"

text \<open>The block \<open>if ndim is not None\<close>.\<close>

definition check_ndim :: "array_like \<Rightarrow> int constraint option \<Rightarrow> fstring error + unit" where
  "check_ndim a ndim =
     (case ndim of
        None \<Rightarrow> Inr ()
      | Some (AnyOf ns) \<Rightarrow>
          (case get_ndim a of
             Inl e \<Rightarrow> Inl e
           | Inr a_ndim \<Rightarrow>
               if a_ndim \<notin> ns
               then Inl (ValueError [Lit ''Number of dimensions ('', IntV a_ndim,
                                     Lit '') does not match one of '', IntSetV ns])
               else Inr ())
      | Some (Single n) \<Rightarrow>
          (case get_ndim a of
             Inl e \<Rightarrow> Inl e
           | Inr a_ndim \<Rightarrow>
               if n \<noteq> a_ndim
               then Inl (ValueError [Lit ''Number of dimensions ('', IntV a_ndim,
                                     Lit '') does not match '', IntV n])
               else Inr ()))"

text \<open>The four blocks in the order of the source; \<open>Inr ()\<close> is the silent return.\<close>

definition check_array_like ::
  "array_like \<Rightarrow> np_dtype constraint option \<Rightarrow> string constraint option
     \<Rightarrow> int constraint option \<Rightarrow> fstring error + unit" where
  "check_array_like a dtype kind ndim =
     (case check_attrs a array_attrs of
        Inl e \<Rightarrow> Inl e
      | Inr _ \<Rightarrow>
          (case check_dtype a dtype of
             Inl e \<Rightarrow> Inl e
           | Inr _ \<Rightarrow>
               (case check_kind a kind of
                  Inl e \<Rightarrow> Inl e
                | Inr _ \<Rightarrow> check_ndim a ndim)))"

text \<open>
  What the specification asks of an attribute under a constraint: nothing when the
  constraint is absent, equality with a single value, membership in a set. A \<open>dtype\<close>
  constraint is compared after \<open>np.dtype\<close> has normalised it.
\<close>

fun satisfies :: "'a constraint option \<Rightarrow> 'a \<Rightarrow> bool" where
  "satisfies None v = True"
| "satisfies (Some (Single t)) v = (v = t)"
| "satisfies (Some (AnyOf ts)) v = (v \<in> ts)"

fun normalised :: "np_dtype constraint option \<Rightarrow> np_dtype constraint option" where
  "normalised None = None"
| "normalised (Some (Single t)) = Some (Single (np_dtype_of t))"
| "normalised (Some (AnyOf ts)) = Some (AnyOf (np_dtype_of ` ts))"

text \<open>Values for the examples: two dtypes, and a 3 by 4 array of 64-bit integers.\<close>

definition int64 :: np_dtype where
  "int64 = \<lparr>dtype_name = ''int64'', dtype_kind = ''i''\<rparr>"

definition float64 :: np_dtype where
  "float64 = \<lparr>dtype_name = ''float64'', dtype_kind = ''f''\<rparr>"

definition int_matrix :: array_like where
  "int_matrix = \<lparr>ndim_attr = Some 2, dtype_attr = Some int64, shape_attr = Some [3, 4]\<rparr>"

section \<open>The stable encoder: \<open>encode_array\<close>\<close>

text \<open>
  The input is a Python sequence of values of one type that numpy can sort, so a list over
  a linear order. The numpy operations the function calls are modelled by what numpy
  documents for each; an index out of range raises \<open>IndexError\<close>.
\<close>

subsection \<open>From the sequence to the array\<close>

text \<open>
  \<open>np.unique\<close> first turns its argument into an array of one numpy dtype
  (\<open>np.asanyarray\<close>), and the array may hold a value differently from the sequence: a
  string loses its trailing NUL characters, an integer is rounded when the dtype is
  \<open>float64\<close>. \<open>cast x v\<close> is the element that the array built from the sequence \<open>x\<close> holds
  for the value \<open>v\<close>, read back as a Python value. It depends on the type of the elements
  and is a parameter of the model; \<open>str_cast\<close> and \<open>int_cast\<close> are numpy's for sequences
  of strings and of integers.
\<close>

definition np_asanyarray :: "('a list \<Rightarrow> 'a \<Rightarrow> 'a) \<Rightarrow> 'a list \<Rightarrow> 'a list" where
  "np_asanyarray cast x = map (cast x) x"

text \<open>
  Strings: the dtype is a fixed-width Unicode string as wide as the longest element.
  Shorter elements are padded with NUL characters, and reading an element drops the NUL
  characters at its end, the element's own among them.
\<close>

definition rstrip_nul :: "string \<Rightarrow> string" where
  "rstrip_nul s = rev (dropWhile (\<lambda>c. c = CHR 0x00) (rev s))"

definition str_cast :: "string list \<Rightarrow> string \<Rightarrow> string" where
  "str_cast x s = rstrip_nul s"

text \<open>
  Integers: each Python int takes the first of \<open>int64\<close>, \<open>uint64\<close> and \<open>object\<close> that
  holds it, and the array has the dtype that numpy promotes these to, which for \<open>int64\<close>
  with \<open>uint64\<close> is \<open>float64\<close>. An empty sequence gives an empty \<open>float64\<close> array.
\<close>

datatype int_dtype = Int64 | UInt64 | Float64 | Object

definition pyint_dtype :: "int \<Rightarrow> int_dtype" where
  "pyint_dtype v =
     (if in_int64 v then Int64 else if 0 \<le> v \<and> v < 2 ^ 64 then UInt64 else Object)"

fun promote_types :: "int_dtype \<Rightarrow> int_dtype \<Rightarrow> int_dtype" where
  "promote_types Object _ = Object"
| "promote_types _ Object = Object"
| "promote_types Float64 _ = Float64"
| "promote_types _ Float64 = Float64"
| "promote_types Int64 Int64 = Int64"
| "promote_types UInt64 UInt64 = UInt64"
| "promote_types Int64 UInt64 = Float64"
| "promote_types UInt64 Int64 = Float64"

fun result_dtype :: "int list \<Rightarrow> int_dtype" where
  "result_dtype [] = Float64"
| "result_dtype (v # vs) = fold (\<lambda>w d. promote_types d (pyint_dtype w)) vs (pyint_dtype v)"

text \<open>
  The \<open>float64\<close> nearest to an integer, ties to the even mantissa, given by its value: a
  \<open>float64\<close> has 53 bits of mantissa, so an integer of more bits is rounded to a
  multiple of the power of two that the surplus bits span.
\<close>

function bit_length :: "int \<Rightarrow> nat" where
  "bit_length a = (if a \<le> 0 then 0 else Suc (bit_length (a div 2)))"
  by pat_completeness auto
termination
  by (relation "measure nat") auto

declare bit_length.simps [simp del]

definition round_float64 :: "int \<Rightarrow> int" where
  "round_float64 v =
     (let a = \<bar>v\<bar>; bits = bit_length a
      in if bits \<le> 53 then v
         else
           let ulp = 2 ^ (bits - 53); q = a div ulp; r = a mod ulp;
               m = (if 2 * r < ulp \<or> (2 * r = ulp \<and> even q) then q else q + 1)
           in sgn v * (m * ulp))"

definition int_cast :: "int list \<Rightarrow> int \<Rightarrow> int" where
  "int_cast x v = (if result_dtype x = Float64 then round_float64 v else v)"

subsection \<open>The numpy operations on arrays\<close>

text \<open>The position of the first element equal to \<open>v\<close> (the length when there is none).\<close>

definition first_index :: "'a list \<Rightarrow> 'a \<Rightarrow> nat" where
  "first_index xs v = length (takeWhile (\<lambda>x. x \<noteq> v) xs)"

text \<open>
  \<open>np.unique(x, return_index=True, return_inverse=True)\<close>: of the array \<open>ar\<close> built from
  \<open>x\<close>, the sorted unique elements, for each of them the index of its first occurrence in
  \<open>ar\<close>, and for each element of \<open>ar\<close> its index in the unique array. numpy sorts and then
  drops adjacent repetitions.
\<close>

definition np_unique ::
  "('a::linorder list \<Rightarrow> 'a \<Rightarrow> 'a) \<Rightarrow> 'a list \<Rightarrow> 'a list \<times> nat list \<times> nat list" where
  "np_unique cast x =
     (let ar = np_asanyarray cast x;
          names = remdups_adj (sort ar)
      in (names, map (first_index ar) names, map (first_index names) ar))"

text \<open>
  \<open>np.argsort\<close>: the indices that sort the array. Equal keys are kept in index order here;
  numpy's default sort leaves their order open, and the one call of the module passes
  pairwise different keys (lemma \<open>np_argsort_unique\<close> below).
\<close>

definition np_argsort :: "'k::linorder list \<Rightarrow> nat list" where
  "np_argsort ks = map snd (sort_key fst (zip ks [0..<length ks]))"

text \<open>
  \<open>np.empty_like\<close>: an array of the same length whose contents numpy leaves
  uninitialised. \<open>mem i\<close> is what the allocated memory happens to hold at position \<open>i\<close>.
\<close>

definition np_empty_like :: "(nat \<Rightarrow> nat) \<Rightarrow> nat list \<Rightarrow> nat list" where
  "np_empty_like mem a = map mem [0..<length a]"

definition np_arange :: "nat \<Rightarrow> nat list" where
  "np_arange n = [0..<n]"

text \<open>\<open>a[idx] = vals\<close> with an index array: the assignments in order, on a copy.\<close>

definition np_put :: "'a list \<Rightarrow> nat list \<Rightarrow> 'a list \<Rightarrow> 'm error + 'a list" where
  "np_put a idx vals =
     (if list_all (\<lambda>i. i < length a) idx
      then Inr (fold (\<lambda>(i, v) r. r[i := v]) (zip idx vals) a)
      else Inl IndexError)"

text \<open>\<open>a[idx]\<close> with an index array.\<close>

definition np_take :: "'a list \<Rightarrow> nat list \<Rightarrow> 'm error + 'a list" where
  "np_take a idx =
     (if list_all (\<lambda>i. i < length a) idx then Inr (map (\<lambda>i. a ! i) idx) else Inl IndexError)"

subsection \<open>The function\<close>

text \<open>
  Besides the sequence \<open>x\<close> the model takes what the call depends on outside the source:
  the memory that \<open>np.empty_like\<close> hands out and numpy's conversion of the elements.
\<close>

definition encode_array ::
  "(nat \<Rightarrow> nat) \<Rightarrow> ('a::linorder list \<Rightarrow> 'a \<Rightarrow> 'a) \<Rightarrow> 'a list
     \<Rightarrow> string error + (nat list \<times> 'a list)" where
  "encode_array mem cast x =
     (let (names, index, inverse) = np_unique cast x;
          index = np_argsort index;
          rank = np_empty_like mem index
      in case np_put rank index (np_arange (length index)) of
           Inl e \<Rightarrow> Inl e
         | Inr rank \<Rightarrow>
             (case np_take rank inverse of
                Inl e \<Rightarrow> Inl e
              | Inr codes \<Rightarrow>
                  (case np_take names index of
                     Inl e \<Rightarrow> Inl e
                   | Inr uniques \<Rightarrow> Inr (codes, uniques))))"

text \<open>A memory for the examples: all positions hold zero.\<close>

definition zero_memory :: "nat \<Rightarrow> nat" where
  "zero_memory i = 0"

section \<open>The chunk partitioner: \<open>split_array_chunks\<close>\<close>

text \<open>
  Python's \<open>k * t\<close> for an integer \<open>k\<close> and a one-element tuple \<open>t = (v,)\<close>: \<open>k\<close> copies of
  \<open>v\<close>, none when \<open>k \<le> 0\<close>.
\<close>

definition tuple_repeat :: "int \<Rightarrow> 'a \<Rightarrow> 'a list" where
  "tuple_repeat k v = replicate (nat k) v"

text \<open>The three messages of the precondition checks, as the f-strings build them.\<close>

definition msg_blocks_gt_n :: "int \<Rightarrow> int \<Rightarrow> string" where
  "msg_blocks_gt_n n blocks =
     ''Number of blocks ('' @ show_int blocks @ '') cannot be greater than number of elements (''
       @ show_int n @ '')''"

definition msg_n_nonpos :: "int \<Rightarrow> string" where
  "msg_n_nonpos n = ''Number of elements ('' @ show_int n @ '') must be >= 0''"

definition msg_blocks_nonpos :: "int \<Rightarrow> string" where
  "msg_blocks_nonpos blocks = ''Number of blocks ('' @ show_int blocks @ '') must be >= 0''"

text \<open>
  \<open>np.divmod\<close> of two Python ints: both become 64-bit integers, and one that does not fit
  raises \<open>OverflowError\<close> (this is NumPy 2; older versions fail from \<open>2^63\<close> on as well,
  with another exception). On 64-bit integers it is floor division and its remainder,
  which is what \<open>div\<close> and \<open>mod\<close> on \<open>int\<close> are; a zero divisor gives zeros (and a
  warning).
\<close>

definition np_divmod :: "int \<Rightarrow> int \<Rightarrow> 'm error + int \<times> int" where
  "np_divmod a b =
     (if \<not> (in_int64 a \<and> in_int64 b) then Inl OverflowError
      else if b = 0 then Inr (0, 0)
      else Inr (wrap_int64 (a div b), a mod b))"

text \<open>
  \<open>n\<close> and \<open>blocks\<close> are Python ints, so \<open>int\<close>; the guards compare them as such.
  \<open>n_div\<close> and \<open>n_mod\<close> are 64-bit integers, and so are \<open>n_div + 1\<close> and
  \<open>blocks - n_mod\<close>. The result tuple is a list.
\<close>

definition split_array_chunks :: "int \<Rightarrow> int \<Rightarrow> string error + int list" where
  "split_array_chunks n blocks =
     (if blocks > n then Inl (ValueError (msg_blocks_gt_n n blocks))
      else if n \<le> 0 then Inl (ValueError (msg_n_nonpos n))
      else if blocks \<le> 0 then Inl (ValueError (msg_blocks_nonpos blocks))
      else
        case np_divmod n blocks of
          Inl e \<Rightarrow> Inl e
        | Inr (n_div, n_mod) \<Rightarrow>
            Inr (tuple_repeat n_mod (wrap_int64 (n_div + 1))
                 @ tuple_repeat (wrap_int64 (blocks - n_mod)) n_div))"

section \<open>Properties of the contract validator\<close>

subsection \<open>The attribute loop\<close>

lemma check_attrs_array_attrs:
  "check_attrs a array_attrs =
     (if ndim_attr a = None then Inl (TypeError (missing_attribute ''ndim''))
      else if dtype_attr a = None then Inl (TypeError (missing_attribute ''dtype''))
      else if shape_attr a = None then Inl (TypeError (missing_attribute ''shape''))
      else Inr ())"
  by (simp add: array_attrs_def hasattr_def)

lemma check_attrs_ok_iff:
  "check_attrs a array_attrs = Inr () \<longleftrightarrow>
     ndim_attr a \<noteq> None \<and> dtype_attr a \<noteq> None \<and> shape_attr a \<noteq> None"
  by (simp add: check_attrs_array_attrs)

lemma check_attrs_error:
  "check_attrs a array_attrs = Inl e \<Longrightarrow> \<exists>m. e = TypeError m"
  by (auto simp: check_attrs_array_attrs split: if_splits)

subsection \<open>The kinds of error of the three constraint blocks\<close>

lemma check_dtype_error:
  "dtype_attr a = Some d \<Longrightarrow> check_dtype a dtype = Inl e \<Longrightarrow> \<exists>m. e = TypeError m"
  by (auto simp: check_dtype_def get_dtype_def Let_def
      split: option.splits constraint.splits if_splits)

lemma check_kind_error:
  "dtype_attr a = Some d \<Longrightarrow> check_kind a kind = Inl e \<Longrightarrow> \<exists>m. e = TypeError m"
  by (auto simp: check_kind_def get_dtype_def
      split: option.splits constraint.splits if_splits)

lemma check_ndim_error:
  "ndim_attr a = Some n \<Longrightarrow> check_ndim a ndim = Inl e \<Longrightarrow> \<exists>m. e = ValueError m"
  by (auto simp: check_ndim_def get_ndim_def
      split: option.splits constraint.splits if_splits)


subsection \<open>A value with the three attributes\<close>

lemma check_array_like_present:
  assumes "ndim_attr a = Some n" and "dtype_attr a = Some d" and "shape_attr a = Some s"
  shows "check_array_like a dtype kind ndim =
           (case check_dtype a dtype of
              Inl e \<Rightarrow> Inl e
            | Inr _ \<Rightarrow> (case check_kind a kind of Inl e \<Rightarrow> Inl e | Inr _ \<Rightarrow> check_ndim a ndim))"
  using assms by (simp add: check_array_like_def check_attrs_array_attrs)

lemma check_dtype_AnyOf:
  "dtype_attr a = Some d \<Longrightarrow>
   check_dtype a (Some (AnyOf ts)) =
     (if d \<in> np_dtype_of ` ts then Inr ()
      else Inl (TypeError [Lit ''Array dtype ('', DTypeV d, Lit '') does not match one of '',
                           DTypeSetV (np_dtype_of ` ts)]))"
  by (simp add: check_dtype_def get_dtype_def Let_def)

lemma check_kind_AnyOf:
  "dtype_attr a = Some d \<Longrightarrow>
   check_kind a (Some (AnyOf ks)) =
     (if dtype_kind d \<in> ks then Inr ()
      else Inl (TypeError [Lit ''Array dtype kind ('', StrV (dtype_kind d),
                           Lit '') does not match one of '', StrSetV ks]))"
  by (simp add: check_kind_def get_dtype_def)

lemma check_ndim_AnyOf:
  "ndim_attr a = Some n \<Longrightarrow>
   check_ndim a (Some (AnyOf ns)) =
     (if n \<in> ns then Inr ()
      else Inl (ValueError [Lit ''Number of dimensions ('', IntV n,
                            Lit '') does not match one of '', IntSetV ns]))"
  by (simp add: check_ndim_def get_ndim_def)

lemma check_None [simp]:
  "check_dtype a None = Inr ()" "check_kind a None = Inr ()" "check_ndim a None = Inr ()"
  by (simp_all add: check_dtype_def check_kind_def check_ndim_def)

subsection \<open>Each block passes exactly when its constraint is satisfied\<close>

lemma check_dtype_passes:
  "dtype_attr a = Some d \<Longrightarrow> satisfies (normalised dtype) d \<Longrightarrow> check_dtype a dtype = Inr ()"
  by (auto simp: check_dtype_def get_dtype_def Let_def split: option.splits constraint.splits)

lemma check_dtype_fails:
  assumes "dtype_attr a = Some d" and "\<not> satisfies (normalised dtype) d"
  shows "\<exists>m. check_dtype a dtype = Inl (TypeError m)"
proof (cases dtype)
  case None
  then show ?thesis
    using assms by simp
next
  case (Some c)
  then show ?thesis
    using assms by (cases c) (auto simp: check_dtype_def get_dtype_def Let_def)
qed

lemma check_kind_passes:
  "dtype_attr a = Some d \<Longrightarrow> satisfies kind (dtype_kind d) \<Longrightarrow> check_kind a kind = Inr ()"
  by (auto simp: check_kind_def get_dtype_def split: option.splits constraint.splits)

lemma check_kind_fails:
  assumes "dtype_attr a = Some d" and "\<not> satisfies kind (dtype_kind d)"
  shows "\<exists>m. check_kind a kind = Inl (TypeError m)"
proof (cases kind)
  case None
  then show ?thesis
    using assms by simp
next
  case (Some c)
  then show ?thesis
    using assms by (cases c) (auto simp: check_kind_def get_dtype_def)
qed

lemma check_ndim_passes:
  "ndim_attr a = Some n \<Longrightarrow> satisfies ndim n \<Longrightarrow> check_ndim a ndim = Inr ()"
  by (auto simp: check_ndim_def get_ndim_def split: option.splits constraint.splits)

lemma check_ndim_fails:
  assumes "ndim_attr a = Some n" and "\<not> satisfies ndim n"
  shows "\<exists>m. check_ndim a ndim = Inl (ValueError m)"
proof (cases ndim)
  case None
  then show ?thesis
    using assms by simp
next
  case (Some c)
  then show ?thesis
    using assms by (cases c) (auto simp: check_ndim_def get_ndim_def)
qed

subsection \<open>The claims about \<open>check_array_like\<close>\<close>

text \<open>
  Claim C5. A value that lacks one of the attributes \<open>ndim\<close>, \<open>dtype\<close>, \<open>shape\<close> is rejected
  with a \<open>TypeError\<close> whose message names the first absent one in that order. The result is
  the same for all constraints, so none of them is looked at.
\<close>

theorem check_array_like_missing_attribute:
  "(ndim_attr a = None \<longrightarrow>
      check_array_like a dtype kind ndim = Inl (TypeError (missing_attribute ''ndim'')))
   \<and> (ndim_attr a \<noteq> None \<and> dtype_attr a = None \<longrightarrow>
      check_array_like a dtype kind ndim = Inl (TypeError (missing_attribute ''dtype'')))
   \<and> (ndim_attr a \<noteq> None \<and> dtype_attr a \<noteq> None \<and> shape_attr a = None \<longrightarrow>
      check_array_like a dtype kind ndim = Inl (TypeError (missing_attribute ''shape'')))"
  by (simp add: check_array_like_def check_attrs_array_attrs)

text \<open>
  Claim C6. The blocks run in the order attributes, dtype, kind, ndim, and the first that
  fails decides the result. A missing attribute is a \<open>TypeError\<close> whatever the three
  constraints are. With the attributes present, a dtype that does not satisfy its
  constraint (it differs from the single value, or is not in the set) is a \<open>TypeError\<close>
  whatever \<open>kind\<close> and \<open>ndim\<close> are; otherwise a kind that does not satisfy its constraint is
  a \<open>TypeError\<close> whatever \<open>ndim\<close> is; otherwise an ndim that does not satisfy its constraint
  is a \<open>ValueError\<close>; otherwise the call returns \<open>None\<close>. A \<open>TypeError\<close> is never a
  \<open>ValueError\<close>.
\<close>

theorem check_array_like_short_circuit:
  "(ndim_attr a = None \<or> dtype_attr a = None \<or> shape_attr a = None \<longrightarrow>
      (\<exists>m. \<forall>dtype kind ndim. check_array_like a dtype kind ndim = Inl (TypeError m)))
   \<and> (ndim_attr a = Some n \<and> dtype_attr a = Some d \<and> shape_attr a = Some s \<longrightarrow>
        (\<not> satisfies (normalised dtype) d \<longrightarrow>
           (\<exists>m. \<forall>kind ndim. check_array_like a dtype kind ndim = Inl (TypeError m)))
      \<and> (satisfies (normalised dtype) d \<and> \<not> satisfies kind (dtype_kind d) \<longrightarrow>
           (\<exists>m. \<forall>ndim. check_array_like a dtype kind ndim = Inl (TypeError m)))
      \<and> (satisfies (normalised dtype) d \<and> satisfies kind (dtype_kind d)
           \<and> \<not> satisfies ndim n \<longrightarrow>
           (\<exists>m. check_array_like a dtype kind ndim = Inl (ValueError m)))
      \<and> (satisfies (normalised dtype) d \<and> satisfies kind (dtype_kind d)
           \<and> satisfies ndim n \<longrightarrow>
           check_array_like a dtype kind ndim = Inr ()))
   \<and> (\<forall>m m'. (TypeError m :: fstring error) \<noteq> ValueError m')"
proof -
  have missing: "\<exists>m. \<forall>dtype kind ndim. check_array_like a dtype kind ndim = Inl (TypeError m)"
    if "ndim_attr a = None \<or> dtype_attr a = None \<or> shape_attr a = None"
  proof -
    from that have "check_attrs a array_attrs = Inl (TypeError (missing_attribute ''ndim''))
        \<or> check_attrs a array_attrs = Inl (TypeError (missing_attribute ''dtype''))
        \<or> check_attrs a array_attrs = Inl (TypeError (missing_attribute ''shape''))"
      by (auto simp: check_attrs_array_attrs)
    then obtain m where "check_attrs a array_attrs = Inl (TypeError m)"
      by blast
    then have "\<forall>dtype kind ndim. check_array_like a dtype kind ndim = Inl (TypeError m)"
      by (simp add: check_array_like_def)
    then show ?thesis ..
  qed
  have present:
    "(\<not> satisfies (normalised dtype) d \<longrightarrow>
           (\<exists>m. \<forall>kind ndim. check_array_like a dtype kind ndim = Inl (TypeError m)))
      \<and> (satisfies (normalised dtype) d \<and> \<not> satisfies kind (dtype_kind d) \<longrightarrow>
           (\<exists>m. \<forall>ndim. check_array_like a dtype kind ndim = Inl (TypeError m)))
      \<and> (satisfies (normalised dtype) d \<and> satisfies kind (dtype_kind d)
           \<and> \<not> satisfies ndim n \<longrightarrow>
           (\<exists>m. check_array_like a dtype kind ndim = Inl (ValueError m)))
      \<and> (satisfies (normalised dtype) d \<and> satisfies kind (dtype_kind d)
           \<and> satisfies ndim n \<longrightarrow>
           check_array_like a dtype kind ndim = Inr ())"
    if p: "ndim_attr a = Some n" "dtype_attr a = Some d" "shape_attr a = Some s"
  proof -
    note run = check_array_like_present [OF p]
    have dt_bad: "\<exists>m. check_dtype a dtype = Inl (TypeError m)"
      if "\<not> satisfies (normalised dtype) d"
      using that check_dtype_fails [OF p(2)] by blast
    have dt_ok: "check_dtype a dtype = Inr ()" if "satisfies (normalised dtype) d"
      using that check_dtype_passes [OF p(2)] by blast
    have kd_bad: "\<exists>m. check_kind a kind = Inl (TypeError m)"
      if "\<not> satisfies kind (dtype_kind d)"
      using that check_kind_fails [OF p(2)] by blast
    have kd_ok: "check_kind a kind = Inr ()" if "satisfies kind (dtype_kind d)"
      using that check_kind_passes [OF p(2)] by blast
    have nd_bad: "\<exists>m. check_ndim a ndim = Inl (ValueError m)" if "\<not> satisfies ndim n"
      using that check_ndim_fails [OF p(1)] by blast
    have nd_ok: "check_ndim a ndim = Inr ()" if "satisfies ndim n"
      using that check_ndim_passes [OF p(1)] by blast
    have c1: "\<exists>m. \<forall>kind ndim. check_array_like a dtype kind ndim = Inl (TypeError m)"
      if "\<not> satisfies (normalised dtype) d"
    proof -
      from dt_bad [OF that] obtain m where "check_dtype a dtype = Inl (TypeError m)" ..
      then have "\<forall>kind ndim. check_array_like a dtype kind ndim = Inl (TypeError m)"
        by (simp add: run)
      then show ?thesis ..
    qed
    have c2: "\<exists>m. \<forall>ndim. check_array_like a dtype kind ndim = Inl (TypeError m)"
      if "satisfies (normalised dtype) d" and "\<not> satisfies kind (dtype_kind d)"
    proof -
      from kd_bad [OF that(2)] obtain m where "check_kind a kind = Inl (TypeError m)" ..
      then have "\<forall>ndim. check_array_like a dtype kind ndim = Inl (TypeError m)"
        using dt_ok [OF that(1)] by (simp add: run)
      then show ?thesis ..
    qed
    have c3: "\<exists>m. check_array_like a dtype kind ndim = Inl (ValueError m)"
      if "satisfies (normalised dtype) d" and "satisfies kind (dtype_kind d)"
        and "\<not> satisfies ndim n"
      using nd_bad [OF that(3)] dt_ok [OF that(1)] kd_ok [OF that(2)] by (simp add: run)
    have c4: "check_array_like a dtype kind ndim = Inr ()"
      if "satisfies (normalised dtype) d" and "satisfies kind (dtype_kind d)"
        and "satisfies ndim n"
      using nd_ok [OF that(3)] dt_ok [OF that(1)] kd_ok [OF that(2)] by (simp add: run)
    show ?thesis
      using c1 c2 c3 c4 by blast
  qed
  show ?thesis
    using missing present by blast
qed

text \<open>
  Claim C7. Let the value have its three attributes. A set-valued constraint passes exactly
  when the attribute is in the set (for \<open>dtype\<close>, the set of the normalised dtypes): alone,
  the call succeeds if and only if the attribute is a member; with other constraints, if
  and only if it is a member and the call without that constraint succeeds. When the
  membership is what fails, the error (a \<open>TypeError\<close> for \<open>dtype\<close> and \<open>kind\<close>, a
  \<open>ValueError\<close> for \<open>ndim\<close>) carries the whole set in its message.
\<close>

theorem check_array_like_set_constraints:
  assumes "ndim_attr a = Some n" and "dtype_attr a = Some d" and "shape_attr a = Some s"
  shows "(check_array_like a (Some (AnyOf ts)) None None = Inr () \<longleftrightarrow> d \<in> np_dtype_of ` ts)
       \<and> (check_array_like a None (Some (AnyOf ks)) None = Inr () \<longleftrightarrow> dtype_kind d \<in> ks)
       \<and> (check_array_like a None None (Some (AnyOf ns)) = Inr () \<longleftrightarrow> n \<in> ns)
       \<and> (check_array_like a (Some (AnyOf ts)) kind ndim = Inr () \<longleftrightarrow>
            d \<in> np_dtype_of ` ts \<and> check_array_like a None kind ndim = Inr ())
       \<and> (check_array_like a dtype (Some (AnyOf ks)) ndim = Inr () \<longleftrightarrow>
            dtype_kind d \<in> ks \<and> check_array_like a dtype None ndim = Inr ())
       \<and> (check_array_like a dtype kind (Some (AnyOf ns)) = Inr () \<longleftrightarrow>
            n \<in> ns \<and> check_array_like a dtype kind None = Inr ())
       \<and> (d \<notin> np_dtype_of ` ts \<longrightarrow>
            (\<exists>m. check_array_like a (Some (AnyOf ts)) kind ndim = Inl (TypeError m)
                 \<and> DTypeSetV (np_dtype_of ` ts) \<in> set m))
       \<and> (check_array_like a dtype None None = Inr () \<and> dtype_kind d \<notin> ks \<longrightarrow>
            (\<exists>m. check_array_like a dtype (Some (AnyOf ks)) ndim = Inl (TypeError m)
                 \<and> StrSetV ks \<in> set m))
       \<and> (check_array_like a dtype kind None = Inr () \<and> n \<notin> ns \<longrightarrow>
            (\<exists>m. check_array_like a dtype kind (Some (AnyOf ns)) = Inl (ValueError m)
                 \<and> IntSetV ns \<in> set m))"
proof -
  note run = check_array_like_present [OF assms]
  note dt = check_dtype_AnyOf [OF assms(2)]
  note kd = check_kind_AnyOf [OF assms(2)]
  note nd = check_ndim_AnyOf [OF assms(1)]
  have c1: "check_array_like a (Some (AnyOf ts)) None None = Inr () \<longleftrightarrow> d \<in> np_dtype_of ` ts"
    by (simp add: run dt)
  have c2: "check_array_like a None (Some (AnyOf ks)) None = Inr () \<longleftrightarrow> dtype_kind d \<in> ks"
    by (simp add: run kd)
  have c3: "check_array_like a None None (Some (AnyOf ns)) = Inr () \<longleftrightarrow> n \<in> ns"
    by (simp add: run nd)
  have c4: "check_array_like a (Some (AnyOf ts)) kind ndim = Inr () \<longleftrightarrow>
              d \<in> np_dtype_of ` ts \<and> check_array_like a None kind ndim = Inr ()"
    by (simp add: run dt)
  have c5: "check_array_like a dtype (Some (AnyOf ks)) ndim = Inr () \<longleftrightarrow>
              dtype_kind d \<in> ks \<and> check_array_like a dtype None ndim = Inr ()"
    by (simp add: run kd split: sum.splits)
  have c6: "check_array_like a dtype kind (Some (AnyOf ns)) = Inr () \<longleftrightarrow>
              n \<in> ns \<and> check_array_like a dtype kind None = Inr ()"
    by (simp add: run nd split: sum.splits)
  have c7: "d \<notin> np_dtype_of ` ts \<longrightarrow>
              (\<exists>m. check_array_like a (Some (AnyOf ts)) kind ndim = Inl (TypeError m)
                   \<and> DTypeSetV (np_dtype_of ` ts) \<in> set m)"
    by (simp add: run dt)
  have c8: "check_array_like a dtype None None = Inr () \<and> dtype_kind d \<notin> ks \<longrightarrow>
              (\<exists>m. check_array_like a dtype (Some (AnyOf ks)) ndim = Inl (TypeError m)
                   \<and> StrSetV ks \<in> set m)"
    by (simp add: run kd split: sum.splits)
  have c9: "check_array_like a dtype kind None = Inr () \<and> n \<notin> ns \<longrightarrow>
              (\<exists>m. check_array_like a dtype kind (Some (AnyOf ns)) = Inl (ValueError m)
                   \<and> IntSetV ns \<in> set m)"
    by (simp add: run nd split: sum.splits)
  show ?thesis
    using c1 c2 c3 c4 c5 c6 c7 c8 c9 by (simp only: simp_thms)
qed


subsection \<open>The claims at concrete values\<close>

lemma int_matrix_attrs:
  "ndim_attr int_matrix = Some 2" "dtype_attr int_matrix = Some int64"
  "shape_attr int_matrix = Some [3, 4]"
  by (simp_all add: int_matrix_def)

lemma int64_neq_float64: "int64 \<noteq> float64"
  by (simp add: int64_def float64_def)

text \<open>Claim C5 at three values, each lacking one more attribute than the next.\<close>

theorem check_array_like_missing_attribute_witness:
  "check_array_like \<lparr>ndim_attr = None, dtype_attr = None, shape_attr = None\<rparr>
       (Some (Single int64)) (Some (Single ''i'')) (Some (Single 2))
     = Inl (TypeError (missing_attribute ''ndim''))
   \<and> check_array_like \<lparr>ndim_attr = Some 2, dtype_attr = None, shape_attr = None\<rparr>
       (Some (Single int64)) (Some (Single ''i'')) (Some (Single 2))
     = Inl (TypeError (missing_attribute ''dtype''))
   \<and> check_array_like \<lparr>ndim_attr = Some 2, dtype_attr = Some int64, shape_attr = None\<rparr>
       (Some (Single float64)) (Some (Single ''f'')) (Some (Single 1))
     = Inl (TypeError (missing_attribute ''shape''))"
  using check_array_like_missing_attribute
      [of "\<lparr>ndim_attr = None, dtype_attr = None, shape_attr = None\<rparr>"
          "Some (Single int64)" "Some (Single ''i'')" "Some (Single 2)"]
    check_array_like_missing_attribute
      [of "\<lparr>ndim_attr = Some 2, dtype_attr = None, shape_attr = None\<rparr>"
          "Some (Single int64)" "Some (Single ''i'')" "Some (Single 2)"]
    check_array_like_missing_attribute
      [of "\<lparr>ndim_attr = Some 2, dtype_attr = Some int64, shape_attr = None\<rparr>"
          "Some (Single float64)" "Some (Single ''f'')" "Some (Single 1)"]
  by simp

text \<open>
  Claim C6 at the integer matrix: a wrong dtype is a \<open>TypeError\<close> although kind and ndim
  are wrong too, a wrong kind a \<open>TypeError\<close> although ndim is wrong too, then a wrong ndim a
  \<open>ValueError\<close>, then success; and a value with no attribute is a \<open>TypeError\<close>.
\<close>

theorem check_array_like_short_circuit_witness:
  "(\<exists>m. check_array_like int_matrix (Some (Single float64)) (Some (Single ''f''))
          (Some (Single 1)) = Inl (TypeError m))
   \<and> (\<exists>m. check_array_like int_matrix (Some (Single int64)) (Some (Single ''f''))
          (Some (Single 1)) = Inl (TypeError m))
   \<and> (\<exists>m. check_array_like int_matrix (Some (Single int64)) (Some (Single ''i''))
          (Some (Single 1)) = Inl (ValueError m))
   \<and> check_array_like int_matrix (Some (Single int64)) (Some (Single ''i''))
          (Some (Single 2)) = Inr ()
   \<and> (\<exists>m. check_array_like \<lparr>ndim_attr = None, dtype_attr = None, shape_attr = None\<rparr>
          (Some (Single int64)) (Some (Single ''i'')) (Some (Single 2)) = Inl (TypeError m))"
proof -
  note sc = check_array_like_short_circuit
    [where a = int_matrix and n = 2 and d = int64 and s = "[3, 4]"]
  have attrs: "ndim_attr int_matrix = Some 2 \<and> dtype_attr int_matrix = Some int64
      \<and> shape_attr int_matrix = Some [3, 4]"
    by (simp add: int_matrix_attrs)
  have d_bad: "\<not> satisfies (normalised (Some (Single float64))) int64"
    by (simp add: np_dtype_of_def int64_neq_float64)
  have d_ok: "satisfies (normalised (Some (Single int64))) int64"
    by (simp add: np_dtype_of_def)
  have k_bad: "\<not> satisfies (Some (Single ''f'')) (dtype_kind int64)"
    by (simp add: int64_def)
  have k_ok: "satisfies (Some (Single ''i'')) (dtype_kind int64)"
    by (simp add: int64_def)
  have n_bad: "\<not> satisfies (Some (Single 1)) (2::int)"
    by simp
  have n_ok: "satisfies (Some (Single 2)) (2::int)"
    by simp
  have "\<exists>m. check_array_like int_matrix (Some (Single float64)) (Some (Single ''f''))
          (Some (Single 1)) = Inl (TypeError m)"
    using sc [where dtype = "Some (Single float64)"] attrs d_bad by blast
  moreover have "\<exists>m. check_array_like int_matrix (Some (Single int64)) (Some (Single ''f''))
          (Some (Single 1)) = Inl (TypeError m)"
    using sc [where dtype = "Some (Single int64)" and kind = "Some (Single ''f'')"]
      attrs d_ok k_bad by blast
  moreover have "\<exists>m. check_array_like int_matrix (Some (Single int64)) (Some (Single ''i''))
          (Some (Single 1)) = Inl (ValueError m)"
    using sc [where dtype = "Some (Single int64)" and kind = "Some (Single ''i'')"
        and ndim = "Some (Single 1)"] attrs d_ok k_ok n_bad by blast
  moreover have "check_array_like int_matrix (Some (Single int64)) (Some (Single ''i''))
          (Some (Single 2)) = Inr ()"
    using sc [where dtype = "Some (Single int64)" and kind = "Some (Single ''i'')"
        and ndim = "Some (Single 2)"] attrs d_ok k_ok n_ok by blast
  moreover have "\<exists>m. check_array_like \<lparr>ndim_attr = None, dtype_attr = None, shape_attr = None\<rparr>
          (Some (Single int64)) (Some (Single ''i'')) (Some (Single 2)) = Inl (TypeError m)"
  proof -
    have "ndim_attr \<lparr>ndim_attr = None, dtype_attr = None, shape_attr = None\<rparr> = None"
      by simp
    then show ?thesis
      using check_array_like_short_circuit
        [where a = "\<lparr>ndim_attr = None, dtype_attr = None, shape_attr = None\<rparr>"]
      by blast
  qed
  ultimately show ?thesis
    by (simp only: simp_thms)
qed

text \<open>Claim C7 at the integer matrix, each constraint once with a set that holds the
  attribute and once with one that does not.\<close>

theorem check_array_like_set_constraints_witness:
  "check_array_like int_matrix (Some (AnyOf {int64, float64})) None None = Inr ()
   \<and> check_array_like int_matrix None (Some (AnyOf {''i'', ''u''})) None = Inr ()
   \<and> check_array_like int_matrix None None (Some (AnyOf {1, 2})) = Inr ()
   \<and> (\<exists>m. check_array_like int_matrix (Some (AnyOf {float64})) None None = Inl (TypeError m)
         \<and> DTypeSetV (np_dtype_of ` {float64}) \<in> set m)
   \<and> (\<exists>m. check_array_like int_matrix None (Some (AnyOf {''f'', ''c''})) None = Inl (TypeError m)
         \<and> StrSetV {''f'', ''c''} \<in> set m)
   \<and> (\<exists>m. check_array_like int_matrix None None (Some (AnyOf {1, 3})) = Inl (ValueError m)
         \<and> IntSetV {1, 3} \<in> set m)"
proof -
  note sets = check_array_like_set_constraints [OF int_matrix_attrs]
  have kind: "dtype_kind int64 = ''i''"
    by (simp add: int64_def)
  have none: "check_array_like int_matrix None None None = Inr ()"
    by (simp add: check_array_like_present [OF int_matrix_attrs])
  have "check_array_like int_matrix (Some (AnyOf {int64, float64})) None None = Inr ()"
    using sets [where ts = "{int64, float64}"] by (simp add: np_dtype_of_def)
  moreover have "check_array_like int_matrix None (Some (AnyOf {''i'', ''u''})) None = Inr ()"
    using sets [where ks = "{''i'', ''u''}"] kind by simp
  moreover have "check_array_like int_matrix None None (Some (AnyOf {1, 2})) = Inr ()"
    using sets [where ns = "{1, 2}"] by simp
  moreover have "\<exists>m. check_array_like int_matrix (Some (AnyOf {float64})) None None
        = Inl (TypeError m) \<and> DTypeSetV (np_dtype_of ` {float64}) \<in> set m"
    using sets [where ts = "{float64}" and kind = None and ndim = None] int64_neq_float64 by (simp add: np_dtype_of_def)
  moreover have "\<exists>m. check_array_like int_matrix None (Some (AnyOf {''f'', ''c''})) None
        = Inl (TypeError m) \<and> StrSetV {''f'', ''c''} \<in> set m"
    using sets [where ks = "{''f'', ''c''}" and dtype = None and ndim = None] kind none by simp
  moreover have "\<exists>m. check_array_like int_matrix None None (Some (AnyOf {1, 3}))
        = Inl (ValueError m) \<and> IntSetV {1, 3} \<in> set m"
    using sets [where ns = "{1, 3}" and dtype = None and kind = None] none by simp
  ultimately show ?thesis
    by (simp only: simp_thms)
qed

section \<open>Properties of the stable encoder\<close>

subsection \<open>First occurrences\<close>

lemma first_index_less: "v \<in> set xs \<Longrightarrow> first_index xs v < length xs"
proof (rule ccontr)
  assume v: "v \<in> set xs" and "\<not> first_index xs v < length xs"
  then have "length (takeWhile (\<lambda>x. x \<noteq> v) xs) = length xs"
    using length_takeWhile_le [of "\<lambda>x. x \<noteq> v" xs] by (simp add: first_index_def)
  then have "takeWhile (\<lambda>x. x \<noteq> v) xs = xs"
    using takeWhile_eq_take [of "\<lambda>x. x \<noteq> v" xs] by simp
  with v show False
    by (simp only: takeWhile_eq_all_conv) blast
qed

lemma nth_first_index: "v \<in> set xs \<Longrightarrow> xs ! first_index xs v = v"
  using nth_length_takeWhile [of "\<lambda>x. x \<noteq> v" xs] first_index_less [of v xs]
  by (simp add: first_index_def)

lemma first_index_least:
  assumes "j < first_index xs v"
  shows "xs ! j \<noteq> v"
proof -
  let ?ys = "takeWhile (\<lambda>x. x \<noteq> v) xs"
  from assms have j: "j < length ?ys"
    by (simp add: first_index_def)
  then have "?ys ! j \<in> set ?ys"
    by (rule nth_mem)
  then have "?ys ! j \<noteq> v"
    by (rule set_takeWhileD [THEN conjunct2])
  moreover have "?ys ! j = xs ! j"
    using j by (rule takeWhile_nth)
  ultimately show ?thesis
    by simp
qed

lemma inj_on_first_index: "inj_on (first_index xs) (set xs)"
proof (rule inj_onI)
  fix u v
  assume u: "u \<in> set xs" and v: "v \<in> set xs"
    and eq: "first_index xs u = first_index xs v"
  have "u = xs ! first_index xs u"
    by (rule nth_first_index [OF u, symmetric])
  also have "\<dots> = xs ! first_index xs v"
    by (rule arg_cong [OF eq])
  also have "\<dots> = v"
    by (rule nth_first_index [OF v])
  finally show "u = v" .
qed

lemma first_index_nth_distinct:
  "distinct xs \<Longrightarrow> j < length xs \<Longrightarrow> first_index xs (xs ! j) = j"
  using first_index_less [of "xs ! j" xs] nth_first_index [of "xs ! j" xs]
  by (simp add: nth_eq_iff_index_eq)

subsection \<open>The parts of \<open>np_unique\<close>\<close>

lemma remdups_adj_Cons_sorted:
  "sorted (y # xs) \<Longrightarrow> x < y \<Longrightarrow> x \<notin> set (remdups_adj (y # xs))"
  by (simp only: remdups_adj_set) auto

lemma distinct_remdups_adj_sorted: "sorted xs \<Longrightarrow> distinct (remdups_adj xs)"
proof (induction xs rule: remdups_adj.induct)
  case 1
  show ?case by simp
next
  case (2 x)
  show ?case by simp
next
  case (3 x y xs)
  show ?case
  proof (cases "x = y")
    case True
    with 3 show ?thesis by simp
  next
    case False
    with "3.prems" have "x < y" by (simp add: less_le)
    moreover from "3.prems" have s: "sorted (y # xs)" by simp
    ultimately have "x \<notin> set (remdups_adj (y # xs))"
      using remdups_adj_Cons_sorted by blast
    with False "3.IH"(2) s show ?thesis by simp
  qed
qed

lemma names_distinct: "distinct (remdups_adj (sort x))"
  by (simp add: distinct_remdups_adj_sorted)

lemma names_length: "length (remdups_adj (sort x)) = card (set x)"
  using distinct_card [OF names_distinct, of x] by simp

subsection \<open>\<open>np_argsort\<close> returns a sorting permutation\<close>

lemma length_np_argsort: "length (np_argsort ks) = length ks"
  by (simp add: np_argsort_def)

lemma mset_np_argsort: "mset (np_argsort ks) = mset [0..<length ks]"
proof -
  have "mset (np_argsort ks) = mset (map snd (zip ks [0..<length ks]))"
    unfolding np_argsort_def by (simp only: mset_map mset_sort)
  moreover have "map snd (zip ks [0..<length ks]) = [0..<length ks]"
    by simp
  ultimately show ?thesis
    by (simp only:)
qed

lemma set_np_argsort: "set (np_argsort ks) = {0..<length ks}"
  using mset_eq_setD [OF mset_np_argsort, of ks] by simp

lemma distinct_np_argsort: "distinct (np_argsort ks)"
  using mset_eq_imp_distinct_iff [OF mset_np_argsort, of ks] by simp

lemma np_argsort_keys:
  "map (\<lambda>i. ks ! i) (np_argsort ks) = map fst (sort_key fst (zip ks [0..<length ks]))"
proof -
  have "\<forall>p \<in> set (sort_key fst (zip ks [0..<length ks])). ks ! snd p = fst p"
    by (auto simp: set_zip)
  then show ?thesis
    by (simp add: np_argsort_def)
qed

lemma sorted_np_argsort: "sorted (map (\<lambda>i. ks ! i) (np_argsort ks))"
  by (simp only: np_argsort_keys sorted_sort_key)

lemma strict_sorted_np_argsort:
  assumes "distinct ks"
  shows "sorted_wrt (<) (map (\<lambda>i. ks ! i) (np_argsort ks))"
proof -
  have "inj_on (\<lambda>i. ks ! i) (set (np_argsort ks))"
    using assms by (simp add: set_np_argsort inj_on_nth)
  then have "distinct (map (\<lambda>i. ks ! i) (np_argsort ks))"
    by (simp add: distinct_map distinct_np_argsort)
  then show ?thesis
    using sorted_np_argsort [of ks] by (simp add: strict_sorted_iff)
qed

text \<open>With pairwise different keys there is one sorting permutation, whatever the sort.\<close>

lemma np_argsort_unique:
  assumes "distinct ks" and "distinct p" and "set p = {0..<length ks}"
    and "sorted (map (\<lambda>i. ks ! i) p)"
  shows "p = np_argsort ks"
proof -
  have inj: "inj_on (\<lambda>i. ks ! i) ({0..<length ks})"
    using assms(1) by (simp add: inj_on_nth)
  have "map (\<lambda>i. ks ! i) p = map (\<lambda>i. ks ! i) (np_argsort ks)"
  proof (rule sorted_distinct_set_unique)
    show "distinct (map (\<lambda>i. ks ! i) p)"
      using inj assms(2,3) by (simp add: distinct_map)
    show "distinct (map (\<lambda>i. ks ! i) (np_argsort ks))"
      using inj by (simp add: distinct_map distinct_np_argsort set_np_argsort)
    show "set (map (\<lambda>i. ks ! i) p) = set (map (\<lambda>i. ks ! i) (np_argsort ks))"
      using assms(3) by (simp add: set_np_argsort)
  qed (simp_all add: assms(4) sorted_np_argsort)
  moreover have "inj_on (\<lambda>i. ks ! i) (set p \<union> set (np_argsort ks))"
    using inj assms(3) by (simp add: set_np_argsort)
  ultimately show ?thesis
    by (simp add: inj_on_map_eq_map)
qed

subsection \<open>Index assignment along a permutation\<close>

lemma length_fold_put:
  "length (fold (\<lambda>(i, v) r. r[i := v]) ps a) = length a"
  by (induction ps arbitrary: a) (simp_all add: case_prod_beta)

lemma fold_put_outside:
  "j \<notin> fst ` set ps \<Longrightarrow> fold (\<lambda>(i, v) r. r[i := v]) ps a ! j = a ! j"
  by (induction ps arbitrary: a) (auto simp: case_prod_beta)

lemma fold_put_nth:
  assumes "distinct idx" and "length vals = length idx" and "list_all (\<lambda>i. i < length a) idx"
    and "k < length idx"
  shows "fold (\<lambda>(i, v) r. r[i := v]) (zip idx vals) a ! (idx ! k) = vals ! k"
  using assms
proof (induction idx arbitrary: vals a k)
  case Nil
  then show ?case by simp
next
  case (Cons i idx)
  then obtain v vs where vals: "vals = v # vs"
    by (cases vals) auto
  show ?case
  proof (cases k)
    case 0
    have "i \<notin> fst ` set (zip idx vs)"
      using Cons.prems(1) by (auto dest: set_zip_leftD)
    then show ?thesis
      using Cons.prems 0 vals by (simp add: fold_put_outside)
  next
    case (Suc k')
    then show ?thesis
      using Cons.prems vals Cons.IH [of vs "a[i := v]" k'] by simp
  qed
qed

lemma np_put_permutation:
  assumes "distinct p" and "set p = {0..<n}" and "length a = n"
  shows "\<exists>r. np_put a p (np_arange n) = Inr r \<and> length r = n \<and> (\<forall>k<n. r ! (p ! k) = k)"
proof -
  have len: "length p = n"
    using assms(1,2) distinct_card [of p] by simp
  have inb: "list_all (\<lambda>i. i < length a) p"
    using assms(2,3) by (simp add: list_all_iff)
  let ?r = "fold (\<lambda>(i, v) r. r[i := v]) (zip p [0..<n]) a"
  have "np_put a p (np_arange n) = Inr ?r"
    using inb by (simp add: np_put_def np_arange_def)
  moreover have "length ?r = n"
    using assms(3) by (simp add: length_fold_put)
  moreover have "\<forall>k<n. ?r ! (p ! k) = k"
    using fold_put_nth [OF assms(1) _ inb, of "[0..<n]"] len by simp
  ultimately show ?thesis
    by blast
qed

text \<open>The contents of the array that is assigned to do not matter: every slot is written.\<close>

lemma np_put_permutation_any:
  assumes "distinct p" and "set p = {0..<n}" and "length a = n" and "length b = n"
  shows "(np_put a p (np_arange n) :: 'm error + nat list) = np_put b p (np_arange n)"
proof -
  obtain r where r: "(np_put a p (np_arange n) :: 'm error + nat list) = Inr r"
      "length r = n" "\<forall>k<n. r ! (p ! k) = k"
    using np_put_permutation [OF assms(1,2,3)] by blast
  obtain s where s: "(np_put b p (np_arange n) :: 'm error + nat list) = Inr s"
      "length s = n" "\<forall>k<n. s ! (p ! k) = k"
    using np_put_permutation [OF assms(1,2,4)] by blast
  have len: "length p = n"
    using assms(1,2) distinct_card [of p] by simp
  have "r = s"
  proof (rule nth_equalityI)
    show "length r = length s"
      using r(2) s(2) by simp
  next
    fix j assume "j < length r"
    then have "j \<in> set p"
      using r(2) assms(2) by simp
    then obtain k where "k < n" "p ! k = j"
      using len by (auto simp: in_set_conv_nth)
    then show "r ! j = s ! j"
      using r(3) s(3) by metis
  qed
  then show ?thesis
    using r(1) s(1) by simp
qed

subsection \<open>What \<open>encode_array\<close> returns\<close>

lemma length_np_asanyarray: "length (np_asanyarray cast x) = length x"
  by (simp add: np_asanyarray_def)

lemma set_np_asanyarray: "set (np_asanyarray cast x) = cast x ` set x"
  by (simp add: np_asanyarray_def)

lemma np_asanyarray_unchanged: "\<forall>v\<in>set x. cast x v = v \<Longrightarrow> np_asanyarray cast x = x"
  by (simp add: np_asanyarray_def map_idI)

lemma inverse_less:
  "list_all (\<lambda>j. j < length (remdups_adj (sort ar))) (map (first_index (remdups_adj (sort ar))) ar)"
  by (simp add: list_all_iff first_index_less)

lemma encode_array_result:
  fixes x :: "'a::linorder list" and cast :: "'a list \<Rightarrow> 'a \<Rightarrow> 'a"
  defines "ar \<equiv> np_asanyarray cast x"
  defines "names \<equiv> remdups_adj (sort ar)"
  defines "index \<equiv> np_argsort (map (first_index ar) names)"
  shows "\<exists>rank. length rank = length names
           \<and> (\<forall>k<length names. rank ! (index ! k) = k)
           \<and> encode_array mem cast x =
               Inr (map (\<lambda>j. rank ! j) (map (first_index names) ar), map (\<lambda>i. names ! i) index)"
proof -
  have set_index: "set index = {0..<length names}"
    by (simp add: index_def set_np_argsort)
  have len_index: "length index = length names"
    by (simp add: index_def length_np_argsort)
  obtain rank where rank:
      "(np_put (np_empty_like mem index) index (np_arange (length names))
          :: string error + nat list) = Inr rank"
      "length rank = length names" "\<forall>k<length names. rank ! (index ! k) = k"
    using np_put_permutation [of index "length names" "np_empty_like mem index"]
      set_index len_index
    by (auto simp: index_def distinct_np_argsort np_empty_like_def)
  have t1: "(np_take rank (map (first_index names) ar) :: string error + nat list)
              = Inr (map (\<lambda>j. rank ! j) (map (first_index names) ar))"
    using inverse_less [of ar] rank(2) by (simp add: np_take_def names_def)
  have t2: "(np_take names index :: string error + 'a list) = Inr (map (\<lambda>i. names ! i) index)"
    using set_index by (simp add: np_take_def list_all_iff)
  have "encode_array mem cast x =
          Inr (map (\<lambda>j. rank ! j) (map (first_index names) ar), map (\<lambda>i. names ! i) index)"
    using rank(1) t1 t2 len_index
    by (simp add: encode_array_def np_unique_def Let_def ar_def [symmetric]
        names_def [symmetric] index_def [symmetric])
  then show ?thesis
    using rank(2,3) by blast
qed

text \<open>All properties hold of the array \<open>ar\<close> that numpy builds from the sequence.\<close>

lemma encode_array_properties:
  fixes x :: "'a::linorder list" and cast :: "'a list \<Rightarrow> 'a \<Rightarrow> 'a"
  defines "ar \<equiv> np_asanyarray cast x"
  shows "\<exists>codes uniques. encode_array mem cast x = Inr (codes, uniques)
           \<and> length codes = length ar
           \<and> length uniques = card (set ar)
           \<and> (\<forall>i<length ar. codes ! i < length uniques \<and> uniques ! (codes ! i) = ar ! i)
           \<and> (\<forall>k<length uniques. \<exists>i<length ar. codes ! i = k)
           \<and> distinct uniques
           \<and> set uniques = set ar
           \<and> sorted_wrt (<) (map (first_index ar) uniques)"
proof -
  define names where "names = remdups_adj (sort ar)"
  define index where "index = np_argsort (map (first_index ar) names)"
  define inverse where "inverse = map (first_index names) ar"
  obtain rank where len_rank: "length rank = length names"
    and rank: "\<And>k. k < length names \<Longrightarrow> rank ! (index ! k) = k"
    and run: "encode_array mem cast x = Inr (map (\<lambda>j. rank ! j) inverse, map (\<lambda>i. names ! i) index)"
    using encode_array_result [where cast = cast and x = x and mem = mem] unfolding names_def index_def inverse_def ar_def by blast
  let ?codes = "map (\<lambda>j. rank ! j) inverse" and ?uniques = "map (\<lambda>i. names ! i) index"
  have dist_names: "distinct names" and set_names: "set names = set ar"
    by (simp_all add: names_def names_distinct)
  have len_names: "length names = card (set ar)"
    by (simp add: names_def names_length)
  have set_index: "set index = {0..<length names}" and dist_index: "distinct index"
    and len_index: "length index = length names"
    by (simp_all add: index_def set_np_argsort distinct_np_argsort length_np_argsort)
  have pos: "\<exists>k<length names. index ! k = j" if "j < length names" for j
  proof -
    from that have "j \<in> set index"
      by (simp add: set_index)
    then show ?thesis
      using len_index by (auto simp: in_set_conv_nth)
  qed
  have index_less: "index ! k < length names" if "k < length names" for k
    using that nth_mem [of k index] len_index set_index by auto
  have code: "?codes ! i < length ?uniques \<and> ?uniques ! (?codes ! i) = ar ! i"
    if i: "i < length ar" for i
  proof -
    let ?j = "first_index names (ar ! i)"
    from i have mem: "ar ! i \<in> set names"
      by (simp add: set_names)
    then have j: "?j < length names" and nj: "names ! ?j = ar ! i"
      by (simp_all add: first_index_less nth_first_index)
    from pos [OF j] obtain k where k: "k < length names" "index ! k = ?j"
      by blast
    then have "rank ! ?j = k"
      using rank [of k] by simp
    then show ?thesis
      using i k nj len_index by (simp add: inverse_def)
  qed
  have onto: "\<exists>i<length ar. ?codes ! i = k" if k: "k < length ?uniques" for k
  proof -
    from k have k': "k < length names"
      by (simp add: len_index)
    let ?j = "index ! k"
    have j: "?j < length names"
      by (rule index_less [OF k'])
    then have "names ! ?j \<in> set ar"
      using set_names nth_mem [of ?j names] by simp
    then obtain i where i: "i < length ar" "ar ! i = names ! ?j"
      by (auto simp: in_set_conv_nth)
    have "first_index names (ar ! i) = ?j"
      using i(2) dist_names j by (simp add: first_index_nth_distinct)
    then have "?codes ! i = k"
      using i(1) rank [OF k'] by (simp add: inverse_def)
    then show ?thesis
      using i(1) by blast
  qed
  have dist_uniques: "distinct ?uniques"
    using dist_names dist_index set_index by (simp add: distinct_map inj_on_nth)
  have set_uniques: "set ?uniques = set ar"
    using set_index nth_image [of "length names" names] set_names by simp
  have keys: "map (first_index ar) ?uniques = map (\<lambda>i. map (first_index ar) names ! i) index"
    using set_index by simp
  have "distinct (map (first_index ar) names)"
    using dist_names inj_on_first_index [of ar] by (simp add: distinct_map set_names)
  then have "sorted_wrt (<) (map (\<lambda>i. map (first_index ar) names ! i) index)"
    unfolding index_def by (rule strict_sorted_np_argsort)
  then have ordered: "sorted_wrt (<) (map (first_index ar) ?uniques)"
    by (simp only: keys)
  have "length ?codes = length ar"
    by (simp add: inverse_def)
  moreover have "length ?uniques = card (set ar)"
    by (simp add: len_index len_names)
  ultimately show ?thesis
    using run code onto dist_uniques set_uniques ordered by blast
qed


text \<open>The result does not depend on what the uninitialised array holds.\<close>

lemma encode_array_memory:
  fixes x :: "'a::linorder list"
  shows "encode_array mem cast x = encode_array mem' cast x"
proof -
  define ar where "ar = np_asanyarray cast x"
  define names where "names = remdups_adj (sort ar)"
  define index where "index = np_argsort (map (first_index ar) names)"
  have len: "length index = length names"
    by (simp add: index_def length_np_argsort)
  have "(np_put (np_empty_like mem index) index (np_arange (length names))
          :: string error + nat list)
        = np_put (np_empty_like mem' index) index (np_arange (length names))"
    by (rule np_put_permutation_any)
      (simp_all add: index_def distinct_np_argsort set_np_argsort length_np_argsort
        np_empty_like_def)
  then show ?thesis
    using len
    by (simp add: encode_array_def np_unique_def Let_def ar_def [symmetric]
        names_def [symmetric] index_def [symmetric])
qed

subsection \<open>The claims about \<open>encode_array\<close>\<close>

text \<open>
  Claim C1, as amended. For every input the call returns codes and uniques such that every
  code is an index into \<open>uniques\<close> and \<open>uniques[codes[i]]\<close> is the element that the array
  built from the input holds at \<open>i\<close>; the uniques are the distinct elements of that array,
  and their first-occurrence indices increase strictly along \<open>uniques\<close>. When the array
  holds every value of the input unchanged, this is the claim for the input itself:
  \<open>uniques[codes[i]] = x[i]\<close>, and \<open>uniques\<close> lists the distinct values of the input in
  order of first appearance.
\<close>

theorem encode_array_first_appearance:
  fixes x :: "'a::linorder list"
  shows "\<exists>codes uniques. encode_array mem cast x = Inr (codes, uniques)
           \<and> (\<forall>i<length x. codes ! i < length uniques
                 \<and> uniques ! (codes ! i) = cast x (x ! i))
           \<and> distinct uniques
           \<and> set uniques = cast x ` set x
           \<and> sorted_wrt (<) (map (first_index (np_asanyarray cast x)) uniques)
           \<and> ((\<forall>v\<in>set x. cast x v = v) \<longrightarrow>
                 (\<forall>i<length x. uniques ! (codes ! i) = x ! i)
                 \<and> set uniques = set x
                 \<and> sorted_wrt (<) (map (first_index x) uniques))"
proof -
  obtain codes uniques where run: "encode_array mem cast x = Inr (codes, uniques)"
    and rt: "\<forall>i<length (np_asanyarray cast x).
               codes ! i < length uniques \<and> uniques ! (codes ! i) = np_asanyarray cast x ! i"
    and dist: "distinct uniques"
    and elems: "set uniques = set (np_asanyarray cast x)"
    and ord: "sorted_wrt (<) (map (first_index (np_asanyarray cast x)) uniques)"
    using encode_array_properties [of mem cast x] by blast
  have rt': "\<forall>i<length x. codes ! i < length uniques \<and> uniques ! (codes ! i) = cast x (x ! i)"
    using rt by (simp add: np_asanyarray_def)
  have elems': "set uniques = cast x ` set x"
    using elems by (simp add: set_np_asanyarray)
  have same: "(\<forall>i<length x. uniques ! (codes ! i) = x ! i)
      \<and> set uniques = set x \<and> sorted_wrt (<) (map (first_index x) uniques)"
    if "\<forall>v\<in>set x. cast x v = v"
  proof -
    have "np_asanyarray cast x = x"
      using that by (rule np_asanyarray_unchanged)
    then show ?thesis
      using rt elems ord by simp
  qed
  show ?thesis
    using run rt' dist elems' ord same by blast
qed

text \<open>
  The amended claim at a sequence of strings without NUL characters, whose natural order
  is not that of first appearance.
\<close>

theorem encode_array_first_appearance_witness:
  "str_cast [''t'', ''g'', ''t'', ''a'', ''g''] ''t'' = ''t''
   \<and> str_cast [''t'', ''g'', ''t'', ''a'', ''g''] ''g'' = ''g''
   \<and> str_cast [''t'', ''g'', ''t'', ''a'', ''g''] ''a'' = ''a''
   \<and> (\<exists>codes uniques.
         encode_array zero_memory str_cast [''t'', ''g'', ''t'', ''a'', ''g''] = Inr (codes, uniques)
         \<and> uniques ! (codes ! 0) = ''t'' \<and> uniques ! (codes ! 1) = ''g''
         \<and> uniques ! (codes ! 2) = ''t'' \<and> uniques ! (codes ! 3) = ''a''
         \<and> uniques ! (codes ! 4) = ''g''
         \<and> distinct uniques
         \<and> set uniques = {''t'', ''g'', ''a''}
         \<and> sorted_wrt (<) (map (first_index [''t'', ''g'', ''t'', ''a'', ''g'']) uniques))"
proof -
  let ?x = "[''t'', ''g'', ''t'', ''a'', ''g'']"
  have same: "\<forall>v\<in>set ?x. str_cast ?x v = v"
    by (simp add: str_cast_def rstrip_nul_def)
  obtain codes uniques where run: "encode_array zero_memory str_cast ?x = Inr (codes, uniques)"
    and dist: "distinct uniques"
    and rest: "(\<forall>v\<in>set ?x. str_cast ?x v = v) \<longrightarrow>
                 (\<forall>i<length ?x. uniques ! (codes ! i) = ?x ! i)
                 \<and> set uniques = set ?x
                 \<and> sorted_wrt (<) (map (first_index ?x) uniques)"
    using encode_array_first_appearance [of zero_memory str_cast ?x] by blast
  from rest same have rt: "\<forall>i<length ?x. uniques ! (codes ! i) = ?x ! i"
    and elems: "set uniques = set ?x"
    and ord: "sorted_wrt (<) (map (first_index ?x) uniques)"
    by blast+
  have "uniques ! (codes ! 0) = ''t''" using rt by (simp add: nth_Cons')
  moreover have "uniques ! (codes ! 1) = ''g''" using rt by (simp add: nth_Cons')
  moreover have "uniques ! (codes ! 2) = ''t''" using rt by (simp add: nth_Cons')
  moreover have "uniques ! (codes ! 3) = ''a''" using rt by (simp add: nth_Cons')
  moreover have "uniques ! (codes ! 4) = ''g''" using rt by (simp add: nth_Cons')
  moreover have "set uniques = {''t'', ''g'', ''a''}" using elems by auto
  ultimately have "\<exists>codes uniques.
         encode_array zero_memory str_cast ?x = Inr (codes, uniques)
         \<and> uniques ! (codes ! 0) = ''t'' \<and> uniques ! (codes ! 1) = ''g''
         \<and> uniques ! (codes ! 2) = ''t'' \<and> uniques ! (codes ! 3) = ''a''
         \<and> uniques ! (codes ! 4) = ''g''
         \<and> distinct uniques
         \<and> set uniques = {''t'', ''g'', ''a''}
         \<and> sorted_wrt (<) (map (first_index ?x) uniques)"
    using run dist ord by blast
  then show ?thesis
    using same by simp
qed

text \<open>
  Claim C1 as first stated, for every input, fails at \<open>['a', 'a\0']\<close>: the array holds
  \<open>'a'\<close> twice, so both codes are 0 and \<open>uniques[codes[1]]\<close> is \<open>'a'\<close>, not the input's
  second value.
\<close>

theorem encode_array_first_appearance_counterexample:
  "encode_array zero_memory str_cast [''a'', [CHR ''a'', CHR 0x00]] = Inr ([0, 0], [''a''])
   \<and> [''a''] ! ([0, 0 :: nat] ! 1) \<noteq> [''a'', [CHR ''a'', CHR 0x00]] ! 1"
proof -
  have "encode_array zero_memory str_cast [''a'', [CHR ''a'', CHR 0x00]] = Inr ([0, 0], [''a''])"
    by code_simp
  then show ?thesis
    by simp
qed


text \<open>
  Claim C4, as amended. For an input of length \<open>M\<close>, \<open>codes\<close> has length \<open>M\<close> and its entries
  are exactly the integers \<open>0, ..., K - 1\<close>, and \<open>uniques\<close> has length \<open>K \<le> M\<close> and no
  duplicates, where \<open>K\<close> is the number of distinct elements of the array built from the
  input. \<open>K\<close> is the number of distinct values of the input whenever the array holds
  different values as different elements. The result is a function of the input: it is
  the same whatever the uninitialised array holds.
\<close>

theorem encode_array_dense_codes:
  fixes x :: "'a::linorder list"
  shows "\<exists>codes uniques. encode_array mem cast x = Inr (codes, uniques)
           \<and> length codes = length x
           \<and> set codes = {0..<length uniques}
           \<and> length uniques = card (cast x ` set x)
           \<and> length uniques \<le> length x
           \<and> distinct uniques
           \<and> (inj_on (cast x) (set x) \<longrightarrow>
                 length uniques = card (set x) \<and> set codes = {0..<card (set x)})
           \<and> (\<forall>mem'. encode_array mem' cast x = encode_array mem cast x)"
proof -
  let ?ar = "np_asanyarray cast x"
  obtain codes uniques where run: "encode_array mem cast x = Inr (codes, uniques)"
    and len: "length codes = length ?ar" "length uniques = card (set ?ar)"
    and into: "\<And>i. i < length ?ar \<Longrightarrow> codes ! i < length uniques"
    and onto: "\<And>k. k < length uniques \<Longrightarrow> \<exists>i<length ?ar. codes ! i = k"
    and dist: "distinct uniques"
    using encode_array_properties [of mem cast x] by blast
  have len1: "length codes = length x"
    using len(1) by (simp add: length_np_asanyarray)
  have len2: "length uniques = card (cast x ` set x)"
    using len(2) by (simp add: set_np_asanyarray)
  have dense: "set codes = {0..<length uniques}"
  proof (rule set_eqI)
    fix k
    show "k \<in> set codes \<longleftrightarrow> k \<in> {0..<length uniques}"
      using into onto len(1) by (auto simp: in_set_conv_nth)
  qed
  have "card (cast x ` set x) \<le> card (set x)"
    by (rule card_image_le) simp
  then have le: "length uniques \<le> length x"
    using len2 card_length [of x] by simp
  have inj: "length uniques = card (set x) \<and> set codes = {0..<card (set x)}"
    if "inj_on (cast x) (set x)"
    using that len2 dense by (simp add: card_image)
  have pure: "\<forall>mem'. encode_array mem' cast x = encode_array mem cast x"
    using encode_array_memory [of _ cast x mem] by blast
  show ?thesis
    using run len1 dense len2 le dist inj pure by blast
qed

text \<open>The amended claim at a sequence of five strings with three distinct values.\<close>

theorem encode_array_dense_codes_witness:
  "\<exists>codes uniques.
      encode_array zero_memory str_cast [''t'', ''g'', ''t'', ''a'', ''g''] = Inr (codes, uniques)
      \<and> length codes = 5
      \<and> set codes = {0..<3}
      \<and> length uniques = 3
      \<and> distinct uniques"
proof -
  let ?x = "[''t'', ''g'', ''t'', ''a'', ''g'']"
  have same: "\<forall>v\<in>set ?x. str_cast ?x v = v"
    by (simp add: str_cast_def rstrip_nul_def)
  have inj: "inj_on (str_cast ?x) (set ?x)"
  proof (rule inj_onI)
    fix u v
    assume "u \<in> set ?x" and "v \<in> set ?x" and eq: "str_cast ?x u = str_cast ?x v"
    with same have "str_cast ?x u = u" and "str_cast ?x v = v"
      by blast+
    with eq show "u = v"
      by simp
  qed
  have card: "card (set ?x) = 3"
    by code_simp
  obtain codes uniques where run: "encode_array zero_memory str_cast ?x = Inr (codes, uniques)"
    and len: "length codes = length ?x"
    and dist: "distinct uniques"
    and rest: "inj_on (str_cast ?x) (set ?x) \<longrightarrow>
                 length uniques = card (set ?x) \<and> set codes = {0..<card (set ?x)}"
    using encode_array_dense_codes [of zero_memory str_cast ?x] by blast
  from rest inj have "length uniques = card (set ?x)" and "set codes = {0..<card (set ?x)}"
    by blast+
  then have "length uniques = 3" and "set codes = {0..<3}"
    by (simp_all only: card)
  moreover have "length codes = 5"
    using len by simp
  ultimately show ?thesis
    using run dist by blast
qed

text \<open>
  Claim C4 as first stated, with \<open>K\<close> the number of distinct values of the input, fails at
  \<open>['b', 'b\0', 'c']\<close>: the input has three distinct values, the array two, so \<open>uniques\<close>
  has length 2 and the codes are 0 and 1 only.
\<close>

theorem encode_array_dense_codes_counterexample:
  "encode_array zero_memory str_cast [''b'', [CHR ''b'', CHR 0x00], ''c'']
     = Inr ([0, 0, 1], [''b'', ''c''])
   \<and> card (set [''b'', [CHR ''b'', CHR 0x00], ''c'']) = 3
   \<and> length [''b'', ''c''] \<noteq> card (set [''b'', [CHR ''b'', CHR 0x00], ''c''])
   \<and> set [0, 0, 1 :: nat] \<noteq> {0..<card (set [''b'', [CHR ''b'', CHR 0x00], ''c''])}"
proof -
  have run: "encode_array zero_memory str_cast [''b'', [CHR ''b'', CHR 0x00], ''c'']
     = Inr ([0, 0, 1], [''b'', ''c''])"
    by code_simp
  have card: "card (set [''b'', [CHR ''b'', CHR 0x00], ''c'']) = 3"
    by code_simp
  have len: "length [''b'', ''c''] \<noteq> card (set [''b'', [CHR ''b'', CHR 0x00], ''c''])"
    by code_simp
  have codes: "set [0, 0, 1 :: nat] \<noteq> {0..<card (set [''b'', [CHR ''b'', CHR 0x00], ''c''])}"
    by code_simp
  show ?thesis
    using run card len codes by (simp only: simp_thms)
qed

text \<open>Claim C8. The empty input gives empty codes and empty uniques, and no error.\<close>

theorem encode_array_empty: "encode_array mem cast ([] :: 'a::linorder list) = Inr ([], [])"
  by (simp add: encode_array_def np_unique_def np_asanyarray_def np_argsort_def
      np_empty_like_def np_put_def np_arange_def np_take_def)

text \<open>
  Claim C9. The docstring's example: \<open>'c'\<close> appears first and gets code 0, although it is the
  greatest of the three values.
\<close>

theorem encode_array_example:
  "encode_array mem str_cast [''c'', ''a'', ''a'', ''b''] = Inr ([0, 1, 1, 2], [''c'', ''a'', ''b''])"
  by code_simp

subsection \<open>A sequence of integers that becomes a \<open>float64\<close> array\<close>

text \<open>
  \<open>2^63\<close> and \<open>2^63 + 1\<close> need \<open>uint64\<close> and \<open>-1\<close> needs \<open>int64\<close>, so the array is
  \<open>float64\<close>, where \<open>2^63 + 1\<close> is rounded to \<open>2^63\<close>: two distinct elements for three
  distinct values.
\<close>

lemma encode_array_float64_example:
  "encode_array mem int_cast [9223372036854775808, 9223372036854775809, - 1]
     = Inr ([0, 0, 1], [9223372036854775808, - 1])"
  by code_simp

section \<open>Properties of the chunk partitioner\<close>

subsection \<open>The three messages differ\<close>

lemma msg_gt_neq_n: "msg_blocks_gt_n n blocks \<noteq> msg_n_nonpos n'"
  by (simp add: msg_blocks_gt_n_def msg_n_nonpos_def)

lemma msg_n_neq_blocks: "msg_n_nonpos n \<noteq> msg_blocks_nonpos blocks"
  by (simp add: msg_n_nonpos_def msg_blocks_nonpos_def)

lemma msg_gt_neq_blocks: "msg_blocks_gt_n n blocks \<noteq> msg_blocks_nonpos blocks'"
proof
  assume "msg_blocks_gt_n n blocks = msg_blocks_nonpos blocks'"
  then have "last (msg_blocks_gt_n n blocks) = last (msg_blocks_nonpos blocks')"
    by simp
  then show False
    by (simp add: msg_blocks_gt_n_def msg_blocks_nonpos_def)
qed

subsection \<open>64-bit integers\<close>



subsection \<open>Sizes of the chunks\<close>

lemma sum_list_tuple_repeat: "0 \<le> k \<Longrightarrow> sum_list (tuple_repeat k (v::int)) = k * v"
  by (simp add: tuple_repeat_def sum_list_replicate)





subsection \<open>Preconditions\<close>

text \<open>
  Claim C3. The call raises \<open>ValueError\<close> exactly when \<open>blocks > n\<close>, \<open>n \<le> 0\<close> or
  \<open>blocks \<le> 0\<close>. The \<open>ValueError\<close> it raises carries one of the three messages, and the
  three messages are pairwise different texts for all arguments. When one of the three
  conditions holds the call returns no chunks, and its result is the same whatever
  \<open>np.divmod\<close> would do: the division is not reached.
\<close>

theorem split_array_chunks_fails_iff:
  "((\<exists>m. split_array_chunks n blocks = Inl (ValueError m)) \<longleftrightarrow> (blocks > n \<or> n \<le> 0 \<or> blocks \<le> 0))
   \<and> (\<forall>m. split_array_chunks n blocks = Inl (ValueError m) \<longrightarrow>
          m = msg_blocks_gt_n n blocks \<or> m = msg_n_nonpos n \<or> m = msg_blocks_nonpos blocks)
   \<and> (blocks > n \<or> n \<le> 0 \<or> blocks \<le> 0 \<longrightarrow> (\<forall>chunks. split_array_chunks n blocks \<noteq> Inr chunks))
   \<and> (\<forall>n1 b1 n2 b2 b3. msg_blocks_gt_n n1 b1 \<noteq> msg_n_nonpos n2
          \<and> msg_blocks_gt_n n1 b1 \<noteq> msg_blocks_nonpos b3
          \<and> msg_n_nonpos n2 \<noteq> msg_blocks_nonpos b3)"
proof -
  have ok: "\<not> (\<exists>m. split_array_chunks n blocks = Inl (ValueError m))"
    if "\<not> blocks > n" "\<not> n \<le> 0" "\<not> blocks \<le> 0"
    using that
    by (auto simp: split_array_chunks_def np_divmod_def split: sum.splits prod.splits if_splits)
  have bad: "blocks > n \<or> n \<le> 0 \<or> blocks \<le> 0 \<Longrightarrow>
      split_array_chunks n blocks = Inl (ValueError (msg_blocks_gt_n n blocks))
      \<or> split_array_chunks n blocks = Inl (ValueError (msg_n_nonpos n))
      \<or> split_array_chunks n blocks = Inl (ValueError (msg_blocks_nonpos blocks))"
    by (auto simp: split_array_chunks_def)
  have c1: "(\<exists>m. split_array_chunks n blocks = Inl (ValueError m)) \<longleftrightarrow>
              (blocks > n \<or> n \<le> 0 \<or> blocks \<le> 0)"
    using ok bad by blast
  have c2: "\<forall>m. split_array_chunks n blocks = Inl (ValueError m) \<longrightarrow>
          m = msg_blocks_gt_n n blocks \<or> m = msg_n_nonpos n \<or> m = msg_blocks_nonpos blocks"
    using c1 bad by auto
  have c3: "blocks > n \<or> n \<le> 0 \<or> blocks \<le> 0 \<longrightarrow>
          (\<forall>chunks. split_array_chunks n blocks \<noteq> Inr chunks)"
    using bad by auto
  show ?thesis
    using c1 c2 c3 msg_gt_neq_n msg_n_neq_blocks msg_gt_neq_blocks by (simp only: simp_thms)
qed

text \<open>Claim C3 at the three failing calls of the specification, at a valid one, and at one
  whose division overflows, which is no \<open>ValueError\<close>.\<close>

theorem split_array_chunks_fails_iff_witness:
  "(\<exists>m. split_array_chunks 3 5 = Inl (ValueError m))
   \<and> (\<exists>m. split_array_chunks 0 1 = Inl (ValueError m))
   \<and> (\<exists>m. split_array_chunks 5 0 = Inl (ValueError m))
   \<and> \<not> (\<exists>m. split_array_chunks 7 3 = Inl (ValueError m))
   \<and> \<not> (\<exists>m. split_array_chunks 9223372036854775808 3 = Inl (ValueError m))"
  using split_array_chunks_fails_iff [of 3 5] split_array_chunks_fails_iff [of 0 1]
    split_array_chunks_fails_iff [of 5 0] split_array_chunks_fails_iff [of 7 3]
    split_array_chunks_fails_iff [of 9223372036854775808 3]
  by simp

text \<open>
  Claim C10. The checks fire in a fixed order: \<open>blocks > n\<close> first, \<open>n \<le> 0\<close> second,
  \<open>blocks \<le> 0\<close> last. With \<open>n = -1\<close> and \<open>blocks = 0\<close> all three fail and the first message
  is raised; with \<open>n = 0\<close> and \<open>blocks = 0\<close> the first check passes and the second message is
  raised.
\<close>

theorem split_array_chunks_precedence:
  "(blocks > n \<longrightarrow> split_array_chunks n blocks = Inl (ValueError (msg_blocks_gt_n n blocks)))
   \<and> (\<not> blocks > n \<and> n \<le> 0 \<longrightarrow> split_array_chunks n blocks = Inl (ValueError (msg_n_nonpos n)))
   \<and> (\<not> blocks > n \<and> \<not> n \<le> 0 \<and> blocks \<le> 0 \<longrightarrow>
         split_array_chunks n blocks = Inl (ValueError (msg_blocks_nonpos blocks)))
   \<and> split_array_chunks (- 1) 0 =
         Inl (ValueError ''Number of blocks (0) cannot be greater than number of elements (-1)'')
   \<and> split_array_chunks 0 0 = Inl (ValueError ''Number of elements (0) must be >= 0'')"
proof -
  have a: "split_array_chunks (- 1) 0 =
         Inl (ValueError ''Number of blocks (0) cannot be greater than number of elements (-1)'')"
    by code_simp
  have b: "split_array_chunks 0 0 = Inl (ValueError ''Number of elements (0) must be >= 0'')"
    by code_simp
  show ?thesis
    using a b by (simp add: split_array_chunks_def)
qed


text \<open>Claim C10 at three more calls, one for each check.\<close>

theorem split_array_chunks_precedence_witness:
  "split_array_chunks (- 5) (- 2) =
     Inl (ValueError ''Number of blocks (-2) cannot be greater than number of elements (-5)'')
   \<and> split_array_chunks (- 3) (- 3) = Inl (ValueError ''Number of elements (-3) must be >= 0'')
   \<and> split_array_chunks 5 0 = Inl (ValueError ''Number of blocks (0) must be >= 0'')"
proof -
  have m1: "msg_blocks_gt_n (- 5) (- 2) =
      ''Number of blocks (-2) cannot be greater than number of elements (-5)''"
    by code_simp
  have m2: "msg_n_nonpos (- 3) = ''Number of elements (-3) must be >= 0''"
    by code_simp
  have m3: "msg_blocks_nonpos 0 = ''Number of blocks (0) must be >= 0''"
    by code_simp
  have "split_array_chunks (- 5) (- 2) = Inl (ValueError (msg_blocks_gt_n (- 5) (- 2)))"
    using split_array_chunks_precedence [of "- 5" "- 2"] by simp
  moreover have "split_array_chunks (- 3) (- 3) = Inl (ValueError (msg_n_nonpos (- 3)))"
    using split_array_chunks_precedence [of "- 3" "- 3"] by simp
  moreover have "split_array_chunks 5 0 = Inl (ValueError (msg_blocks_nonpos 0))"
    using split_array_chunks_precedence [of 5 0] by simp
  ultimately show ?thesis
    by (simp only: m1 m2 m3)
qed


end
